theory Spec2Isabelle
  imports Main "HOL-Library.Word"
begin

unbundle bit_operations_syntax

section \<open>The socket buffer of \<^verbatim>\<open>libevent_server.h\<close>\<close>

text \<open>
  \<^verbatim>\<open>#define SOCKET_BUFFER_SIZE 8192\<close>, \<^verbatim>\<open>#define QUEUE_SIZE 100\<close> and
  \<^verbatim>\<open>#define MASTER_THREAD_ID -1\<close>.
\<close>

definition SOCKET_BUFFER_SIZE :: nat where
  "SOCKET_BUFFER_SIZE = 8192"

definition QUEUE_SIZE :: nat where
  "QUEUE_SIZE = 100"

definition MASTER_THREAD_ID :: int where
  "MASTER_THREAD_ID = - 1"

type_synonym uchar = "8 word"
type_synonym short = "16 word"

text \<open>
  \<^verbatim>\<open>struct Buffer { size_t buf_ptr; size_t buf_size; SockBuf buf; }\<close>. The two
  \<^verbatim>\<open>size_t\<close> fields are natural numbers: the header only ever stores 0 in them, so
  no arithmetic of the header can wrap. \<^verbatim>\<open>SockBuf\<close> is declared in \<^verbatim>\<open>wire/wire.h\<close>,
  which is not part of the sources at hand; the byte array is a function from the index
  to the byte stored there, of which only the indices below \<^verbatim>\<open>SOCKET_BUFFER_SIZE\<close>
  are ever used.
\<close>

record Buffer =
  buf_ptr :: nat
  buf_size :: nat
  buf :: "nat \<Rightarrow> uchar"

text \<open>
  \<^verbatim>\<open>inline Buffer() : buf_ptr(0), buf_size(0) {}\<close>: the array is not initialised, so
  whatever the memory held (\<open>garbage\<close>) is the array's content.
\<close>

definition Buffer_ctor :: "(nat \<Rightarrow> uchar) \<Rightarrow> Buffer" where
  "Buffer_ctor garbage = \<lparr>buf_ptr = 0, buf_size = 0, buf = garbage\<rparr>"

text \<open>\<^verbatim>\<open>inline void Reset() { buf_ptr = 0; buf_size = 0; }\<close>\<close>

definition Buffer_Reset :: "Buffer \<Rightarrow> Buffer" where
  "Buffer_Reset b = b\<lparr>buf_ptr := 0, buf_size := 0\<rparr>"

text \<open>\<^verbatim>\<open>inline size_t GetMaxSize() { return SOCKET_BUFFER_SIZE; }\<close>\<close>

definition GetMaxSize :: "Buffer \<Rightarrow> nat" where
  "GetMaxSize b = SOCKET_BUFFER_SIZE"

text \<open>
  \<^verbatim>\<open>struct NewConnQueueItem { int new_conn_fd; short event_flags; }\<close>: what the
  master thread hands to a worker for one accepted connection.
\<close>

record NewConnQueueItem =
  new_conn_fd :: int
  event_flags :: short

section \<open>The operating system and libevent, as far as the header calls them\<close>

text \<open>
  The header calls \<^verbatim>\<open>fcntl\<close>, \<^verbatim>\<open>setsockopt\<close>, \<^verbatim>\<open>event_new\<close>, \<^verbatim>\<open>event_add\<close>,
  \<^verbatim>\<open>exit\<close> and the logger. Their effects are made explicit in a state \<open>world\<close> that
  every function of the header takes and returns: the kernel's table of open
  descriptors, libevent's events and the lines written to the log.

  A descriptor that is not in the table is not open: \<^verbatim>\<open>fcntl\<close> and \<^verbatim>\<open>setsockopt\<close>
  return -1 on it (EBADF) and change nothing. An open descriptor is a TCP socket, a
  descriptor opened with \<^verbatim>\<open>O_PATH\<close>, or any other file. On a descriptor opened with
  \<^verbatim>\<open>O_PATH\<close> the kernel lets \<^verbatim>\<open>fcntl(F_GETFL)\<close> read the flags and refuses
  \<^verbatim>\<open>fcntl(F_SETFL)\<close> with EBADF. \<^verbatim>\<open>setsockopt(IPPROTO_TCP, TCP_NODELAY)\<close> returns -1
  on every open descriptor that is not a TCP socket.
\<close>

datatype fd_kind = TcpSocket | OtherFile | PathOnly

record file_description =
  kind :: fd_kind
  status_flags :: int
  tcp_nodelay :: bool

text \<open>
  libevent's \<^verbatim>\<open>struct event\<close>: the arguments \<^verbatim>\<open>event_new\<close> was called with, and whether
  \<^verbatim>\<open>event_add\<close> has made it pending. A \<^verbatim>\<open>struct event *\<close> is the index of the event in
  \<open>events\<close>; a \<^verbatim>\<open>struct event_base *\<close> is \<open>None\<close> for \<^verbatim>\<open>nullptr\<close> and \<open>Some\<close> of an
  address otherwise. \<^verbatim>\<open>event_new\<close> always returns a new event, and \<^verbatim>\<open>event_add\<close>
  fails only on a handle that names no event: the header does not look at what they
  return.
\<close>

datatype callback = EventHandler | WorkerHandleNewConn

record struct_event =
  ev_base :: "nat option"
  ev_fd :: int
  ev_events :: short
  ev_callback :: callback
  ev_arg :: nat
  ev_pending :: bool

record world =
  fds :: "int \<rightharpoonup> file_description"
  events :: "struct_event list"
  error_log :: "string list"

definition LOG_ERROR :: "string \<Rightarrow> world \<Rightarrow> world" where
  "LOG_ERROR msg w = w\<lparr>error_log := error_log w @ [msg]\<rparr>"

text \<open>\<^verbatim>\<open>O_NONBLOCK\<close> of \<^verbatim>\<open><fcntl.h>\<close>, 04000 on Linux.\<close>

definition O_NONBLOCK :: int where
  "O_NONBLOCK = 2048"

definition fcntl_F_GETFL :: "int \<Rightarrow> world \<Rightarrow> int" where
  "fcntl_F_GETFL fd w = (case fds w fd of None \<Rightarrow> - 1 | Some d \<Rightarrow> status_flags d)"

text \<open>
  \<^verbatim>\<open>fcntl(fd, F_SETFL, flags)\<close> changes the file status flags that can be changed,
  which on Linux are \<^verbatim>\<open>O_APPEND\<close>, \<^verbatim>\<open>O_ASYNC\<close>, \<^verbatim>\<open>O_DIRECT\<close>, \<^verbatim>\<open>O_NOATIME\<close> and
  \<^verbatim>\<open>O_NONBLOCK\<close> (the kernel's \<^verbatim>\<open>SETFL_MASK\<close>), and leaves the access mode and the
  other flags as they are. The header passes back the flags it has just read with
  \<^verbatim>\<open>O_NONBLOCK\<close> added; a call that turns on a flag the file does not support is not
  one the header makes.
\<close>

definition O_APPEND :: int where
  "O_APPEND = 1024"

definition O_ASYNC :: int where
  "O_ASYNC = 8192"

definition O_DIRECT :: int where
  "O_DIRECT = 16384"

definition O_NOATIME :: int where
  "O_NOATIME = 262144"

definition SETFL_MASK :: int where
  "SETFL_MASK = O_APPEND OR O_NONBLOCK OR O_ASYNC OR O_DIRECT OR O_NOATIME"

definition fcntl_F_SETFL :: "int \<Rightarrow> int \<Rightarrow> world \<Rightarrow> int \<times> world" where
  "fcntl_F_SETFL fd flags w =
     (case fds w fd of
        None \<Rightarrow> (- 1, w)
      | Some d \<Rightarrow>
          (if kind d = PathOnly then (- 1, w)
           else (0, w\<lparr>fds := (fds w)(fd \<mapsto>
                   d\<lparr>status_flags :=
                       (status_flags d AND NOT SETFL_MASK) OR (flags AND SETFL_MASK)\<rparr>)\<rparr>)))"

definition setsockopt_TCP_NODELAY :: "int \<Rightarrow> int \<Rightarrow> world \<Rightarrow> int \<times> world" where
  "setsockopt_TCP_NODELAY fd val w =
     (case fds w fd of
        None \<Rightarrow> (- 1, w)
      | Some d \<Rightarrow>
          (if kind d = TcpSocket
           then (0, w\<lparr>fds := (fds w)(fd \<mapsto> d\<lparr>tcp_nodelay := (val \<noteq> 0)\<rparr>)\<rparr>)
           else (- 1, w)))"

definition event_new ::
  "nat option \<Rightarrow> int \<Rightarrow> short \<Rightarrow> callback \<Rightarrow> nat \<Rightarrow> world \<Rightarrow> nat \<times> world" where
  "event_new base fd what cb arg w =
     (length (events w),
      w\<lparr>events := events w @
         [\<lparr>ev_base = base, ev_fd = fd, ev_events = what, ev_callback = cb,
           ev_arg = arg, ev_pending = False\<rparr>]\<rparr>)"

definition event_add :: "nat \<Rightarrow> world \<Rightarrow> int \<times> world" where
  "event_add ev w =
     (if ev < length (events w)
      then (0, w\<lparr>events := (events w)[ev := (events w ! ev)\<lparr>ev_pending := True\<rparr>]\<rparr>)
      else (- 1, w))"

text \<open>What a test reads back from the kernel about a descriptor.\<close>

definition has_O_NONBLOCK :: "world \<Rightarrow> int \<Rightarrow> bool" where
  "has_O_NONBLOCK w fd =
     (case fds w fd of None \<Rightarrow> False | Some d \<Rightarrow> status_flags d AND O_NONBLOCK \<noteq> 0)"

definition has_TCP_NODELAY :: "world \<Rightarrow> int \<Rightarrow> bool" where
  "has_TCP_NODELAY w fd = (case fds w fd of None \<Rightarrow> False | Some d \<Rightarrow> tcp_nodelay d)"

section \<open>The helpers \<^verbatim>\<open>SetNonBlocking\<close> and \<^verbatim>\<open>SetTCPNoDelay\<close>\<close>

text \<open>
  \<^verbatim>\<open>
  inline void SetNonBlocking(evutil_socket_t fd) {
    auto flags = fcntl(fd, F_GETFL);
    flags |= O_NONBLOCK;
    if (fcntl(fd, F_SETFL, flags) < 0) {
      LOG_ERROR("Failed to set non-blocking socket");
    }
  }
  \<close>
\<close>

definition SetNonBlocking :: "int \<Rightarrow> world \<Rightarrow> world" where
  "SetNonBlocking fd w =
     (let flags = fcntl_F_GETFL fd w;
          flags = flags OR O_NONBLOCK;
          (r, w') = fcntl_F_SETFL fd flags w
      in if r < 0 then LOG_ERROR ''Failed to set non-blocking socket'' w' else w')"

text \<open>
  \<^verbatim>\<open>
  inline void SetTCPNoDelay(evutil_socket_t fd) {
    int one = 1;
    setsockopt(fd, IPPROTO_TCP, TCP_NODELAY, &one, sizeof one);
  }
  \<close>
  What \<^verbatim>\<open>setsockopt\<close> returns is dropped.
\<close>

definition SetTCPNoDelay :: "int \<Rightarrow> world \<Rightarrow> world" where
  "SetTCPNoDelay fd w = (let one = 1 in snd (setsockopt_TCP_NODELAY fd one w))"

section \<open>\<^verbatim>\<open>LibeventThread\<close>\<close>

text \<open>
  \<^verbatim>\<open>
  LibeventThread(const int thread_id, struct event_base *libevent_base)
      : thread_id_(thread_id), libevent_base_(libevent_base) {
    if (libevent_base_ == nullptr) {
      LOG_ERROR("Can't allocate event base\n");
      exit(1);
    }
  };
  \<close>
  \<^verbatim>\<open>exit\<close> does not return: the constructor's result is either the code the process
  exited with or the constructed object. The members \<^verbatim>\<open>thread_id_\<close> and
  \<^verbatim>\<open>libevent_base_\<close> are the fields \<open>thread_id\<close> and \<open>libevent_base\<close>: a name of
  a constant cannot end in an underscore.
\<close>

record LibeventThread =
  thread_id :: int
  libevent_base :: "nat option"

datatype fatal = Exit int

definition LibeventThread_ctor ::
  "int \<Rightarrow> nat option \<Rightarrow> world \<Rightarrow> (fatal + LibeventThread) \<times> world" where
  "LibeventThread_ctor thread_id' libevent_base' w =
     (let t = \<lparr>thread_id = thread_id', libevent_base = libevent_base'\<rparr>
      in if libevent_base t = None
         then (Inl (Exit 1), LOG_ERROR (''Can't allocate event base'' @ [CHR 0x0A]) w)
         else (Inr t, w))"

text \<open>\<^verbatim>\<open>struct event_base *GetEventBase() { return libevent_base_; }\<close>\<close>

definition GetEventBase :: "LibeventThread \<Rightarrow> nat option" where
  "GetEventBase t = libevent_base t"

text \<open>
  \<^verbatim>\<open>class LibeventWorkerThread : public LibeventThread\<close> adds the event for new
  connections, the two ends of the notification pipe and the queue of new connection
  requests. \<^verbatim>\<open>LockFreeQueue\<close> is declared in \<^verbatim>\<open>container/lock_free_queue.h\<close>, which
  is not among the sources at hand; the queue is the list of the items pushed onto it,
  oldest first.
\<close>

record LibeventWorkerThread = LibeventThread +
  new_conn_event :: nat
  new_conn_receive_fd :: int
  new_conn_send_fd :: int
  new_conn_queue :: "NewConnQueueItem list"

text \<open>
  \<^verbatim>\<open>class LibeventMasterThread : public LibeventThread\<close> adds
  \<^verbatim>\<open>const int num_threads_\<close>, the field \<open>num_threads\<close>: the number of worker threads,
  a natural number.
\<close>

record LibeventMasterThread = LibeventThread +
  num_threads :: nat

section \<open>\<^verbatim>\<open>LibeventSocket\<close>\<close>

text \<open>
  The connection object. \<^verbatim>\<open>struct event *event\<close> is a handle into \<open>events\<close>;
  \<^verbatim>\<open>LibeventThread *thread\<close> is the thread object referred to (this type has no null
  pointer: \<^verbatim>\<open>Init\<close> dereferences the pointer unconditionally);
  \<^verbatim>\<open>std::unique_ptr<PacketManager> pkt_manager\<close> is \<open>None\<close> when it holds \<^verbatim>\<open>nullptr\<close>.
  \<^verbatim>\<open>PacketManager\<close> itself is declared in \<^verbatim>\<open>wire/wire.h\<close> and stays a type
  parameter.
\<close>

record 'pm LibeventSocket =
  sock_fd :: int
  is_disconnected :: bool
  event :: nat
  event_flags :: short
  rbuf :: Buffer
  wbuf :: Buffer
  thread :: LibeventThread
  pkt_manager :: "'pm option"

text \<open>
  \<^verbatim>\<open>
  inline void Init(short event_flags, LibeventThread *thread) {
    SetNonBlocking(sock_fd);
    SetTCPNoDelay(sock_fd);
    is_disconnected = false;
    this->event_flags = event_flags;
    this->thread = thread;
    event = event_new(thread->GetEventBase(), sock_fd, event_flags, EventHandler, this);
    event_add(event, nullptr);
  }
  \<close>
  \<open>this\<close> is the address of the object, which \<^verbatim>\<open>event_new\<close> receives as the
  callback's argument.
\<close>

definition Init ::
  "nat \<Rightarrow> short \<Rightarrow> LibeventThread \<Rightarrow> 'pm LibeventSocket \<Rightarrow> world
     \<Rightarrow> 'pm LibeventSocket \<times> world" where
  "Init this event_flags' thread' c w =
     (let w = SetNonBlocking (sock_fd c) w;
          w = SetTCPNoDelay (sock_fd c) w;
          c = c\<lparr>is_disconnected := False\<rparr>;
          c = c\<lparr>event_flags := event_flags'\<rparr>;
          c = c\<lparr>thread := thread'\<rparr>;
          (ev, w) = event_new (GetEventBase thread') (sock_fd c) event_flags' EventHandler this w;
          c = c\<lparr>event := ev\<rparr>;
          w = snd (event_add (event c) w)
      in (c, w))"

text \<open>
  \<^verbatim>\<open>
  inline LibeventSocket(int sock_fd, short event_flags, LibeventThread *thread) :
      sock_fd(sock_fd), event_flags(event_flags), thread(thread) {
    Init(event_flags, thread);
  }
  \<close>
  The members without an initialiser start from what the object's storage held:
  \<open>raw_flag\<close> and \<open>raw_event\<close> for \<^verbatim>\<open>is_disconnected\<close> and \<^verbatim>\<open>event\<close>, \<open>raw_rbuf\<close> and
  \<open>raw_wbuf\<close> for the two byte arrays. \<^verbatim>\<open>pkt_manager\<close> is default-constructed, so it
  holds \<^verbatim>\<open>nullptr\<close>.
\<close>

record storage =
  raw_flag :: bool
  raw_event :: nat
  raw_rbuf :: "nat \<Rightarrow> uchar"
  raw_wbuf :: "nat \<Rightarrow> uchar"

definition LibeventSocket_ctor ::
  "nat \<Rightarrow> storage \<Rightarrow> int \<Rightarrow> short \<Rightarrow> LibeventThread \<Rightarrow> world
     \<Rightarrow> 'pm LibeventSocket \<times> world" where
  "LibeventSocket_ctor this mem sock_fd' event_flags' thread' w =
     Init this event_flags' thread'
       \<lparr>sock_fd = sock_fd', is_disconnected = raw_flag mem, event = raw_event mem,
        event_flags = event_flags', rbuf = Buffer_ctor (raw_rbuf mem),
        wbuf = Buffer_ctor (raw_wbuf mem), thread = thread', pkt_manager = None\<rparr> w"

text \<open>
  \<^verbatim>\<open>
  void Reset(short event_flags, LibeventThread *thread) {
    is_disconnected = false;
    rbuf.Reset();
    wbuf.Reset();
    pkt_manager.reset(nullptr);
    Init(event_flags, thread);
  }
  \<close>
\<close>

definition Reset ::
  "nat \<Rightarrow> short \<Rightarrow> LibeventThread \<Rightarrow> 'pm LibeventSocket \<Rightarrow> world
     \<Rightarrow> 'pm LibeventSocket \<times> world" where
  "Reset this event_flags' thread' c w =
     (let c = c\<lparr>is_disconnected := False\<rparr>;
          c = c\<lparr>rbuf := Buffer_Reset (rbuf c)\<rparr>;
          c = c\<lparr>wbuf := Buffer_Reset (wbuf c)\<rparr>;
          c = c\<lparr>pkt_manager := None\<rparr>
      in Init this event_flags' thread' c w)"

section \<open>Buffer operations that the header does not define\<close>

text \<open>
  The header gives \<^verbatim>\<open>Buffer\<close> its constructor, \<^verbatim>\<open>Reset\<close> and \<^verbatim>\<open>GetMaxSize\<close>. The
  other operations on a buffer are written in the implementation file of the
  connection, which is not among the sources at hand. They follow the specification,
  section 4.1.
\<close>

text \<open>
  Modelled from the spec: the operation \<^emph>\<open>remaining\<close> of section 4.1, which the header
  does not define: \<open>filled - cursor\<close>.
\<close>

definition Buffer_remaining :: "Buffer \<Rightarrow> nat" where
  "Buffer_remaining b = buf_size b - buf_ptr b"

text \<open>
  Modelled from the spec: the operation \<^emph>\<open>consume(n)\<close> of section 4.1, which the header
  does not define: advance the cursor by \<open>n\<close>. The operation requires
  \<open>n \<le> remaining\<close>; the requirement is \<open>buffer_requires\<close> below.
\<close>

definition Buffer_consume :: "nat \<Rightarrow> Buffer \<Rightarrow> Buffer" where
  "Buffer_consume n b = b\<lparr>buf_ptr := buf_ptr b + n\<rparr>"

text \<open>
  Modelled from the spec: the operation \<^emph>\<open>append(src, n)\<close> of section 4.1, which the
  header does not define: copy \<open>n\<close> bytes of \<open>src\<close> into the positions from \<open>filled\<close> up
  to \<open>filled + n\<close>, and increase \<open>filled\<close> by \<open>n\<close>. The operation requires
  \<open>filled + n \<le> capacity\<close>; the requirement is \<open>buffer_requires\<close> below.
\<close>

definition Buffer_append :: "uchar list \<Rightarrow> nat \<Rightarrow> Buffer \<Rightarrow> Buffer" where
  "Buffer_append src n b =
     b\<lparr>buf := (\<lambda>i. if buf_size b \<le> i \<and> i < buf_size b + n
                    then src ! (i - buf_size b) else buf b i),
       buf_size := buf_size b + n\<rparr>"

text \<open>The bytes between the cursor and the filled length, in order.\<close>

definition readable :: "Buffer \<Rightarrow> uchar list" where
  "readable b = map (buf b) [buf_ptr b ..< buf_size b]"

text \<open>
  A buffer's life is a sequence of operations, each applied only when what it requires
  holds: \<^emph>\<open>consume\<close> needs \<open>n \<le> remaining\<close>, \<^emph>\<open>append\<close> needs \<open>n\<close> bytes in the
  source and \<open>filled + n \<le> capacity\<close>. \<open>buffer_run\<close> is \<open>None\<close> as soon as a
  requirement is not met: the specification says nothing of the buffer after that.
\<close>

datatype buffer_op = OpReset | OpConsume nat | OpAppend "uchar list" nat

fun buffer_requires :: "buffer_op \<Rightarrow> Buffer \<Rightarrow> bool" where
  "buffer_requires OpReset b = True"
| "buffer_requires (OpConsume n) b = (n \<le> Buffer_remaining b)"
| "buffer_requires (OpAppend src n) b = (n \<le> length src \<and> buf_size b + n \<le> GetMaxSize b)"

fun buffer_apply :: "buffer_op \<Rightarrow> Buffer \<Rightarrow> Buffer" where
  "buffer_apply OpReset b = Buffer_Reset b"
| "buffer_apply (OpConsume n) b = Buffer_consume n b"
| "buffer_apply (OpAppend src n) b = Buffer_append src n b"

fun buffer_run :: "buffer_op list \<Rightarrow> Buffer \<Rightarrow> Buffer option" where
  "buffer_run [] b = Some b"
| "buffer_run (op # ops) b =
     (if buffer_requires op b then buffer_run ops (buffer_apply op b) else None)"

definition buffer_invariant :: "Buffer \<Rightarrow> bool" where
  "buffer_invariant b \<longleftrightarrow>
     0 \<le> buf_ptr b \<and> buf_ptr b \<le> buf_size b \<and> buf_size b \<le> SOCKET_BUFFER_SIZE"

section \<open>The methods of \<^verbatim>\<open>LibeventSocket\<close> that the header only declares\<close>

text \<open>
  \<^verbatim>\<open>RefillReadBuffer\<close>, \<^verbatim>\<open>ReadBytes\<close>, \<^verbatim>\<open>BufferWriteBytes\<close>, \<^verbatim>\<open>FlushWriteBuffer\<close> and
  \<^verbatim>\<open>CloseSocket\<close> are declared in the header and defined in a file that is not among
  the sources at hand. They follow the specification, section 4.2, and are built from
  the buffer operations above.

  The socket is not part of the program. What the kernel answers to the successive
  \<^verbatim>\<open>write\<close> or \<^verbatim>\<open>read\<close> calls of one method is an argument of the method, a list of
  results; a call made after the list has ended finds the socket not ready (EAGAIN).
  \<open>wire\<close> is the sequence of bytes the kernel has accepted for the peer so far.
\<close>

datatype wr_result = Written nat | WrAgain | WrError

datatype flush_status = FlushDone | FlushBlocked | FlushFailed

text \<open>
  Modelled from the spec: \<^verbatim>\<open>FlushWriteBuffer()\<close>, declared in the header, defined
  elsewhere. Section 4.2: it writes all buffered bytes to the socket, looping over
  partial writes; on EAGAIN it returns without clearing the buffer and signals that
  the caller has to wait for write-readiness; on a hard error it sets the disconnect
  flag and returns failure. A write that accepts \<open>k\<close> bytes takes at most what is
  buffered; once nothing is left the buffer is cleared.
\<close>

fun FlushWriteBuffer ::
  "wr_result list \<Rightarrow> 'pm LibeventSocket \<Rightarrow> uchar list
     \<Rightarrow> flush_status \<times> wr_result list \<times> 'pm LibeventSocket \<times> uchar list" where
  "FlushWriteBuffer rs c wire =
     (if Buffer_remaining (wbuf c) = 0
      then (FlushDone, rs, c\<lparr>wbuf := Buffer_Reset (wbuf c)\<rparr>, wire)
      else (case rs of
          [] \<Rightarrow> (FlushBlocked, [], c, wire)
        | Written k # rs' \<Rightarrow>
            (let n = min k (Buffer_remaining (wbuf c))
             in FlushWriteBuffer rs' (c\<lparr>wbuf := Buffer_consume n (wbuf c)\<rparr>)
                  (wire @ take n (readable (wbuf c))))
        | WrAgain # rs' \<Rightarrow> (FlushBlocked, rs', c, wire)
        | WrError # rs' \<Rightarrow> (FlushFailed, rs', c\<lparr>is_disconnected := True\<rparr>, wire)))"

declare FlushWriteBuffer.simps [simp del]

text \<open>
  The length field of a packet: a 32-bit unsigned integer, most significant byte first.
\<close>

definition be32 :: "32 word \<Rightarrow> uchar list" where
  "be32 x = [ucast (drop_bit 24 x), ucast (drop_bit 16 x), ucast (drop_bit 8 x), ucast x]"

text \<open>
  Section 6 of the specification: an outbound packet is the type byte, the length as a
  big-endian 32-bit integer that counts its own four bytes and the payload, and the
  payload, the first \<open>len\<close> bytes of \<open>pkt_buf\<close>.
\<close>

definition packet_bytes :: "uchar list \<Rightarrow> nat \<Rightarrow> uchar \<Rightarrow> uchar list" where
  "packet_bytes pkt_buf len type = type # be32 (word_of_nat (len + 4)) @ take len pkt_buf"

text \<open>
  Modelled from the spec: the part of \<^verbatim>\<open>BufferWriteBytes\<close> that moves the bytes of a
  packet into the write buffer, declared in the header with the method, defined
  elsewhere. Section 4.2 has a packet that is still too large after a flush written in
  chunks; section 8 has it cause an intermediate flush and arrive on the wire
  contiguous and correctly framed. So the bytes go through the buffer one window at a
  time, the window being the room left in the buffer, with a flush after each window
  but the last. Section 4.2 gives a chunk a header of its own only as far as the
  protocol permits, and the framing of section 6 knows no header for a part of a
  packet: no byte is added between the windows. When a flush in between does not
  complete, the method gives up and returns false.
\<close>

function write_chunks ::
  "wr_result list \<Rightarrow> uchar list \<Rightarrow> 'pm LibeventSocket \<Rightarrow> uchar list
     \<Rightarrow> bool \<times> wr_result list \<times> 'pm LibeventSocket \<times> uchar list" where
  "write_chunks rs bytes c wire =
     (let window = GetMaxSize (wbuf c) - buf_size (wbuf c)
      in if length bytes \<le> window
         then (True, rs, c\<lparr>wbuf := Buffer_append bytes (length bytes) (wbuf c)\<rparr>, wire)
         else (case FlushWriteBuffer rs (c\<lparr>wbuf := Buffer_append bytes window (wbuf c)\<rparr>) wire of
             (FlushDone, rs', c', wire') \<Rightarrow> write_chunks rs' (drop window bytes) c' wire'
           | (FlushBlocked, rs', c', wire') \<Rightarrow> (False, rs', c', wire')
           | (FlushFailed, rs', c', wire') \<Rightarrow> (False, rs', c', wire')))"
  by pat_completeness auto
termination
proof -
  have cleared: "buf_size (wbuf c') = 0"
    if "FlushWriteBuffer rs c wire = (FlushDone, rs', c', wire')"
    for rs rs' :: "wr_result list" and c c' :: "'pm LibeventSocket" and wire wire' :: "uchar list"
    using that
  proof (induction rs c wire rule: FlushWriteBuffer.induct)
    case (1 rs c wire)
    note run = "1.prems" [unfolded FlushWriteBuffer.simps [of rs c wire]]
    show ?case
    proof (cases "Buffer_remaining (wbuf c) = 0")
      case True
      with run show ?thesis by (auto simp: Buffer_Reset_def)
    next
      case False
      with run "1.IH" show ?thesis
        by (auto split: list.splits wr_result.splits simp: Let_def)
    qed
  qed
  show ?thesis
  proof (relation "measures [\<lambda>(rs, bytes, c, wire). length bytes,
      \<lambda>(rs, bytes, c, wire). buf_size (wbuf c)]", goal_cases)
    case 1
    show ?case by simp
  next
    case (2 rs bytes c wire window st rest rs' rest' c' wire')
    then show ?case
      using cleared [of rs "c\<lparr>wbuf := Buffer_append bytes window (wbuf c)\<rparr>" wire rs' c' wire']
      by (auto simp: GetMaxSize_def SOCKET_BUFFER_SIZE_def)
  qed
qed

declare write_chunks.simps [simp del]

text \<open>
  Modelled from the spec: \<^verbatim>\<open>BufferWriteBytes(pkt_buf, len, type)\<close>, declared in the
  header, defined elsewhere. Section 4.2: it appends one wire packet to the write
  buffer; if the packet does not fit in the remaining capacity, the buffer is flushed
  first; if the packet is still too large, it is written in chunks. The result is the
  \<^verbatim>\<open>bool\<close> of the declaration: false when a flush it needed did not complete.
\<close>

definition BufferWriteBytes ::
  "wr_result list \<Rightarrow> uchar list \<Rightarrow> nat \<Rightarrow> uchar \<Rightarrow> 'pm LibeventSocket \<Rightarrow> uchar list
     \<Rightarrow> bool \<times> wr_result list \<times> 'pm LibeventSocket \<times> uchar list" where
  "BufferWriteBytes rs pkt_buf len type c wire =
     (let packet = packet_bytes pkt_buf len type
      in if length packet \<le> GetMaxSize (wbuf c) - buf_size (wbuf c)
         then (True, rs, c\<lparr>wbuf := Buffer_append packet (length packet) (wbuf c)\<rparr>, wire)
         else (case FlushWriteBuffer rs c wire of
             (FlushDone, rs', c', wire') \<Rightarrow> write_chunks rs' packet c' wire'
           | (FlushBlocked, rs', c', wire') \<Rightarrow> (False, rs', c', wire')
           | (FlushFailed, rs', c', wire') \<Rightarrow> (False, rs', c', wire')))"




datatype rd_result = RdData "uchar list" | RdEOF | RdAgain | RdError

text \<open>
  Modelled from the spec: \<^verbatim>\<open>RefillReadBuffer()\<close>, declared in the header, defined
  elsewhere. Section 4.2: it issues one non-blocking read into the read buffer; on
  success it returns true and at least one new byte is readable; on end of stream, on
  a reset and on any error other than EAGAIN it returns false and sets the disconnect
  flag; on EAGAIN it returns false and leaves the flag alone. The read asks for the
  room left in the buffer and stores what it got behind the filled length; a read that
  returns no byte is the end of the stream.
\<close>

definition RefillReadBuffer ::
  "rd_result \<Rightarrow> 'pm LibeventSocket \<Rightarrow> bool \<times> 'pm LibeventSocket" where
  "RefillReadBuffer r c =
     (case r of
        RdData bs \<Rightarrow>
          (let n = min (length bs) (GetMaxSize (rbuf c) - buf_size (rbuf c))
           in if n = 0 then (False, c\<lparr>is_disconnected := True\<rparr>)
              else (True, c\<lparr>rbuf := Buffer_append bs n (rbuf c)\<rparr>))
      | RdEOF \<Rightarrow> (False, c\<lparr>is_disconnected := True\<rparr>)
      | RdAgain \<Rightarrow> (False, c)
      | RdError \<Rightarrow> (False, c\<lparr>is_disconnected := True\<rparr>))"

text \<open>
  Modelled from the spec: \<^verbatim>\<open>ReadBytes(pkt_buf, bytes)\<close>, declared in the header,
  defined elsewhere. Section 4.2: it makes sure that \<open>n\<close> bytes are available in the
  read buffer, refilling as often as needed, then copies them out and advances the
  cursor; it fails if and only if a refill fails. The bytes copied out are the first
  component of the result, \<open>None\<close> on failure.
\<close>

fun ReadBytes ::
  "rd_result list \<Rightarrow> nat \<Rightarrow> 'pm LibeventSocket
     \<Rightarrow> uchar list option \<times> rd_result list \<times> 'pm LibeventSocket" where
  "ReadBytes rs n c =
     (if n \<le> Buffer_remaining (rbuf c)
      then (Some (take n (readable (rbuf c))), rs, c\<lparr>rbuf := Buffer_consume n (rbuf c)\<rparr>)
      else (case rs of
          [] \<Rightarrow> (None, [], snd (RefillReadBuffer RdAgain c))
        | r # rs' \<Rightarrow>
            (case RefillReadBuffer r c of
               (True, c') \<Rightarrow> ReadBytes rs' n c'
             | (False, c') \<Rightarrow> (None, rs', c'))))"

declare ReadBytes.simps [simp del]

text \<open>
  \<^verbatim>\<open>event_del\<close> of libevent and \<^verbatim>\<open>close\<close> of the kernel, which \<^verbatim>\<open>CloseSocket\<close> needs.
\<close>

definition event_del :: "nat \<Rightarrow> world \<Rightarrow> int \<times> world" where
  "event_del ev w =
     (if ev < length (events w)
      then (0, w\<lparr>events := (events w)[ev := (events w ! ev)\<lparr>ev_pending := False\<rparr>]\<rparr>)
      else (- 1, w))"

definition close_fd :: "int \<Rightarrow> world \<Rightarrow> int \<times> world" where
  "close_fd fd w =
     (case fds w fd of None \<Rightarrow> (- 1, w) | Some d \<Rightarrow> (0, w\<lparr>fds := (fds w)(fd := None)\<rparr>))"

text \<open>
  Modelled from the spec: \<^verbatim>\<open>CloseSocket()\<close>, declared in the header, defined elsewhere.
  Section 4.2: it closes the descriptor, removes the registration with the reactor and
  sets the disconnect flag; it does not free the connection, and calling it again
  changes nothing more.
\<close>

definition CloseSocket :: "'pm LibeventSocket \<Rightarrow> world \<Rightarrow> 'pm LibeventSocket \<times> world" where
  "CloseSocket c w =
     (let w = snd (event_del (event c) w);
          w = snd (close_fd (sock_fd c) w)
      in (c\<lparr>is_disconnected := True\<rparr>, w))"

section \<open>The master thread's dispatch\<close>

text \<open>
  The acceptor of the specification, section 3: the master thread, the vector of its
  workers (\<^verbatim>\<open>GetWorkerThreads()\<close>) and an incrementing dispatch counter, a natural
  number. \<open>pipe_writes\<close> records the descriptors that one byte was written to, in the
  order of the writes. What a worker has taken out of its queue or read from its pipe
  is not recorded: queue and pipe hold all that was ever put in.
\<close>

record acceptor =
  master :: LibeventMasterThread
  workers :: "LibeventWorkerThread list"
  counter :: nat
  pipe_writes :: "int list"

text \<open>
  Modelled from the spec: \<^verbatim>\<open>LibeventMasterThread::DispatchConnection(new_conn_fd,
  event_flags)\<close>, declared in the header, defined elsewhere. Section 4.5: it computes
  \<^verbatim>\<open>worker_index = counter++ % num_workers\<close>, pushes \<^verbatim>\<open>{fd, flags}\<close> onto that worker's
  queue and writes one byte to its wake pipe. With no worker the remainder is not
  defined, and an index beyond the vector names no worker: the result is \<open>None\<close>.
\<close>

definition DispatchConnection :: "int \<Rightarrow> short \<Rightarrow> acceptor \<Rightarrow> acceptor option" where
  "DispatchConnection fd flags a =
     (if num_threads (master a) = 0 then None
      else
        (let worker_index = counter a mod num_threads (master a);
             a = a\<lparr>counter := counter a + 1\<rparr>
         in if worker_index < length (workers a)
            then
              (let worker = workers a ! worker_index;
                   item = \<lparr>new_conn_fd = fd, NewConnQueueItem.event_flags = flags\<rparr>;
                   worker = worker\<lparr>new_conn_queue := new_conn_queue worker @ [item]\<rparr>
               in Some (a\<lparr>workers := (workers a)[worker_index := worker],
                          pipe_writes := pipe_writes a @ [new_conn_send_fd worker]\<rparr>))
            else None))"

text \<open>The connections of a burst, dispatched one after the other in the order accepted.\<close>

fun dispatch_all :: "(int \<times> short) list \<Rightarrow> acceptor \<Rightarrow> acceptor option" where
  "dispatch_all [] a = Some a"
| "dispatch_all ((fd, flags) # rest) a =
     (case DispatchConnection fd flags a of None \<Rightarrow> None | Some a' \<Rightarrow> dispatch_all rest a')"

definition queue_item :: "int \<times> short \<Rightarrow> NewConnQueueItem" where
  "queue_item x = \<lparr>new_conn_fd = fst x, NewConnQueueItem.event_flags = snd x\<rparr>"

text \<open>
  Of a list whose elements are numbered from \<open>k0\<close>, the elements whose number leaves
  the remainder \<open>w\<close> when divided by \<open>n\<close>, in the order of the list.
\<close>

definition share_of :: "nat \<Rightarrow> nat \<Rightarrow> nat \<Rightarrow> 'a list \<Rightarrow> 'a list" where
  "share_of n w k0 xs = map snd (filter (\<lambda>(k, x). k mod n = w) (enumerate k0 xs))"

section \<open>Driving a connection\<close>

text \<open>
  A connection that is reset again and again: each element of the list is the
  \<^verbatim>\<open>(event_flags, thread)\<close> pair of one call of \<^verbatim>\<open>Reset\<close>.
\<close>

fun Resets ::
  "nat \<Rightarrow> (short \<times> LibeventThread) list \<Rightarrow> 'pm LibeventSocket \<Rightarrow> world
     \<Rightarrow> 'pm LibeventSocket \<times> world" where
  "Resets this [] c w = (c, w)"
| "Resets this ((fl, th) # rest) c w =
     (case Reset this fl th c w of (c', w') \<Rightarrow> Resets this rest c' w')"

text \<open>
  The event that \<^verbatim>\<open>Init\<close> leaves in libevent for the object at \<open>this\<close> on descriptor
  \<open>fd\<close>, called with the pair \<open>a\<close>: created by \<^verbatim>\<open>event_new\<close>, made pending by
  \<^verbatim>\<open>event_add\<close>.
\<close>

definition registration :: "nat \<Rightarrow> int \<Rightarrow> short \<times> LibeventThread \<Rightarrow> struct_event" where
  "registration this fd a =
     \<lparr>ev_base = GetEventBase (snd a), ev_fd = fd, ev_events = fst a,
      ev_callback = EventHandler, ev_arg = this, ev_pending = True\<rparr>"

text \<open>
  A session is a connection, the world around it and the bytes sent to its peer so far.
  The operations on it are the public contract of section 4.2 of the specification;
  each carries what the kernel answers during the call.
\<close>

datatype conn_op =
    DoRefill rd_result
  | DoReadBytes "rd_result list" nat
  | DoBufferWriteBytes "wr_result list" "uchar list" nat uchar
  | DoFlush "wr_result list"
  | DoClose
  | DoReset nat short LibeventThread

fun is_Reset :: "conn_op \<Rightarrow> bool" where
  "is_Reset (DoReset this fl th) = True"
| "is_Reset _ = False"

record 'pm session =
  conn :: "'pm LibeventSocket"
  env :: world
  sent :: "uchar list"

fun conn_step :: "conn_op \<Rightarrow> 'pm session \<Rightarrow> 'pm session" where
  "conn_step (DoRefill r) s = s\<lparr>conn := snd (RefillReadBuffer r (conn s))\<rparr>"
| "conn_step (DoReadBytes rs n) s = s\<lparr>conn := snd (snd (ReadBytes rs n (conn s)))\<rparr>"
| "conn_step (DoBufferWriteBytes rs p len ty) s =
     (case BufferWriteBytes rs p len ty (conn s) (sent s) of
        (ok, rs', c', wire') \<Rightarrow> s\<lparr>conn := c', sent := wire'\<rparr>)"
| "conn_step (DoFlush rs) s =
     (case FlushWriteBuffer rs (conn s) (sent s) of
        (st, rs', c', wire') \<Rightarrow> s\<lparr>conn := c', sent := wire'\<rparr>)"
| "conn_step DoClose s =
     (case CloseSocket (conn s) (env s) of (c', w') \<Rightarrow> s\<lparr>conn := c', env := w'\<rparr>)"
| "conn_step (DoReset this fl th) s =
     (case Reset this fl th (conn s) (env s) of (c', w') \<Rightarrow> s\<lparr>conn := c', env := w'\<rparr>)"

text \<open>The states a session goes through, the first one included.\<close>

fun conn_trace :: "conn_op list \<Rightarrow> 'pm session \<Rightarrow> 'pm session list" where
  "conn_trace [] s = [s]"
| "conn_trace (op # ops) s = s # conn_trace ops (conn_step op s)"

text \<open>How often a sequence of truth values goes from false to true.\<close>

fun rises :: "bool list \<Rightarrow> nat" where
  "rises (False # True # xs) = Suc (rises (True # xs))"
| "rises (x # y # xs) = rises (y # xs)"
| "rises xs = 0"

section \<open>Concrete states\<close>

definition no_descriptors :: world where
  "no_descriptors = \<lparr>fds = Map.empty, events = [], error_log = []\<rparr>"

definition one_socket :: world where
  "one_socket =
     \<lparr>fds = [5 \<mapsto> \<lparr>kind = TcpSocket, status_flags = 2, tcp_nodelay = False\<rparr>],
      events = [], error_log = []\<rparr>"

definition blank :: storage where
  "blank = \<lparr>raw_flag = True, raw_event = 0, raw_rbuf = (\<lambda>i. 0), raw_wbuf = (\<lambda>i. 0)\<rparr>"

definition worker0 :: LibeventThread where
  "worker0 = \<lparr>thread_id = 0, libevent_base = Some 1\<rparr>"

definition worker1 :: LibeventThread where
  "worker1 = \<lparr>thread_id = 1, libevent_base = Some 2\<rparr>"

definition used_conn :: "nat LibeventSocket" where
  "used_conn =
     \<lparr>sock_fd = 5, is_disconnected = True, event = 0, event_flags = 2,
      rbuf = \<lparr>buf_ptr = 3, buf_size = 10, buf = (\<lambda>i. 7)\<rparr>,
      wbuf = \<lparr>buf_ptr = 0, buf_size = 4, buf = (\<lambda>i. 9)\<rparr>,
      thread = worker0, pkt_manager = Some 42\<rparr>"

definition constructed :: "nat LibeventSocket \<times> world" where
  "constructed = LibeventSocket_ctor 100 blank 5 2 worker0 one_socket"

definition twice_reset :: "nat LibeventSocket \<times> world" where
  "twice_reset = Resets 100 [(4, worker1), (2, worker0)] (fst constructed) (snd constructed)"

definition fresh_conn :: "nat LibeventSocket" where
  "fresh_conn = fst constructed"

definition fresh_session :: "nat session" where
  "fresh_session = \<lparr>conn = fresh_conn, env = snd constructed, sent = []\<rparr>"

definition hello :: "uchar list" where
  "hello = [0x68, 0x65, 0x6C, 0x6C, 0x6F]"



definition failing_ops :: "conn_op list" where
  "failing_ops =
     [DoBufferWriteBytes [] hello 5 0x41, DoFlush [Written 2, WrError], DoRefill RdAgain,
      DoReadBytes [RdData [1, 2]] 1, DoClose]"

definition some_buffer_ops :: "buffer_op list" where
  "some_buffer_ops =
     [OpAppend [1, 2, 3, 4] 4, OpConsume 3, OpAppend [5, 6] 1, OpConsume 2, OpReset,
      OpAppend [7] 1]"

definition two_workers :: acceptor where
  "two_workers =
     \<lparr>master = \<lparr>thread_id = MASTER_THREAD_ID, libevent_base = Some 9, num_threads = 2\<rparr>,
      workers =
        [\<lparr>thread_id = 0, libevent_base = Some 1, new_conn_event = 0,
          new_conn_receive_fd = 20, new_conn_send_fd = 21, new_conn_queue = []\<rparr>,
         \<lparr>thread_id = 1, libevent_base = Some 2, new_conn_event = 1,
          new_conn_receive_fd = 22, new_conn_send_fd = 23, new_conn_queue = []\<rparr>],
      counter = 0, pipe_writes = []\<rparr>"

definition four_clients :: "(int \<times> short) list" where
  "four_clients = [(10, 2), (11, 2), (12, 2), (13, 2)]"

section \<open>Properties\<close>

subsection \<open>What the system calls and \<^verbatim>\<open>Init\<close> change\<close>

lemmas run_defs = LibeventSocket_ctor_def Reset_def Init_def SetNonBlocking_def SetTCPNoDelay_def
  fcntl_F_GETFL_def fcntl_F_SETFL_def setsockopt_TCP_NODELAY_def LOG_ERROR_def event_new_def
  event_add_def GetEventBase_def Buffer_ctor_def Buffer_Reset_def

lemma or_and_self: "(a OR m) AND m = (m::int)"
  by (simp add: bit_eq_iff bit_simps) blast

lemma keep_unsettable:
  "n AND m = (n::int) \<Longrightarrow> (s AND NOT m) OR ((s OR n) AND m) = s OR n"
  by (simp add: bit_eq_iff bit_simps) blast

lemma O_NONBLOCK_settable: "O_NONBLOCK AND SETFL_MASK = O_NONBLOCK"
  unfolding SETFL_MASK_def by (simp add: bit_eq_iff bit_simps) blast

lemma SetNonBlocking_fds:
  "fds (SetNonBlocking fd w) = (case fds w fd of None \<Rightarrow> fds w
      | Some d \<Rightarrow>
          if kind d = PathOnly then fds w
          else (fds w)(fd \<mapsto> d\<lparr>status_flags := status_flags d OR O_NONBLOCK\<rparr>))"
  by (simp add: SetNonBlocking_def fcntl_F_GETFL_def fcntl_F_SETFL_def LOG_ERROR_def Let_def
      keep_unsettable [OF O_NONBLOCK_settable] split: option.splits)

lemma SetNonBlocking_log:
  "error_log (SetNonBlocking fd w) = (case fds w fd of
        None \<Rightarrow> error_log w @ [''Failed to set non-blocking socket'']
      | Some d \<Rightarrow>
          if kind d = PathOnly then error_log w @ [''Failed to set non-blocking socket'']
          else error_log w)"
  by (simp add: SetNonBlocking_def fcntl_F_GETFL_def fcntl_F_SETFL_def LOG_ERROR_def Let_def
      split: option.splits)

lemma SetTCPNoDelay_log: "error_log (SetTCPNoDelay fd w) = error_log w"
  by (simp add: SetTCPNoDelay_def setsockopt_TCP_NODELAY_def split: option.splits)

lemma SetNonBlocking_events: "events (SetNonBlocking fd w) = events w"
  by (simp add: SetNonBlocking_def fcntl_F_GETFL_def fcntl_F_SETFL_def LOG_ERROR_def Let_def
      split: option.splits)

lemma SetTCPNoDelay_fds:
  "fds (SetTCPNoDelay fd w) = (case fds w fd of None \<Rightarrow> fds w
      | Some d \<Rightarrow> if kind d = TcpSocket then (fds w)(fd \<mapsto> d\<lparr>tcp_nodelay := True\<rparr>) else fds w)"
  by (simp add: SetTCPNoDelay_def setsockopt_TCP_NODELAY_def split: option.splits)

lemma SetTCPNoDelay_events: "events (SetTCPNoDelay fd w) = events w"
  by (simp add: SetTCPNoDelay_def setsockopt_TCP_NODELAY_def split: option.splits)

lemma Init_conn:
  "fst (Init this fl th c w) =
     c\<lparr>is_disconnected := False, event := length (events w), event_flags := fl, thread := th\<rparr>"
  by (simp add: Init_def Let_def event_new_def event_add_def SetNonBlocking_events
      SetTCPNoDelay_events split: prod.splits)

lemma Init_events:
  "events (snd (Init this fl th c w)) = events w @
     [\<lparr>ev_base = GetEventBase th, ev_fd = sock_fd c, ev_events = fl,
       ev_callback = EventHandler, ev_arg = this, ev_pending = True\<rparr>]"
  by (simp add: Init_def Let_def event_new_def event_add_def SetNonBlocking_events
      SetTCPNoDelay_events split: prod.splits)

lemma Init_fds:
  "fds (snd (Init this fl th c w)) = fds (SetTCPNoDelay (sock_fd c) (SetNonBlocking (sock_fd c) w))"
  by (simp add: Init_def Let_def event_new_def event_add_def split: prod.splits)

lemma Init_log:
  "error_log (snd (Init this fl th c w)) = error_log (SetNonBlocking (sock_fd c) w)"
  by (simp add: Init_def Let_def event_new_def event_add_def SetTCPNoDelay_log
      split: prod.splits)


lemma Reset_conn:
  "fst (Reset this fl th c w) =
     c\<lparr>is_disconnected := False, event := length (events w), event_flags := fl,
       rbuf := Buffer_Reset (rbuf c), wbuf := Buffer_Reset (wbuf c), thread := th,
       pkt_manager := None\<rparr>"
  by (simp add: Reset_def Let_def Init_conn)

lemma Reset_events:
  "events (snd (Reset this fl th c w)) = events w @
     [\<lparr>ev_base = GetEventBase th, ev_fd = sock_fd c, ev_events = fl,
       ev_callback = EventHandler, ev_arg = this, ev_pending = True\<rparr>]"
  by (simp add: Reset_def Let_def Init_events)

lemma Reset_fds:
  "fds (snd (Reset this fl th c w)) = fds (SetTCPNoDelay (sock_fd c) (SetNonBlocking (sock_fd c) w))"
  by (simp add: Reset_def Let_def Init_fds)

lemma ctor_conn:
  "fst (LibeventSocket_ctor this mem fd fl th w) =
     \<lparr>sock_fd = fd, is_disconnected = False, event = length (events w),
      event_flags = fl, rbuf = Buffer_ctor (raw_rbuf mem),
      wbuf = Buffer_ctor (raw_wbuf mem), thread = th, pkt_manager = None\<rparr>"
  by (simp add: LibeventSocket_ctor_def Init_conn)

lemma ctor_events:
  "events (snd (LibeventSocket_ctor this mem fd fl th w)) = events w @
     [\<lparr>ev_base = GetEventBase th, ev_fd = fd, ev_events = fl,
       ev_callback = EventHandler, ev_arg = this, ev_pending = True\<rparr>]"
  by (simp add: LibeventSocket_ctor_def Init_events)

lemma ctor_fds:
  "fds (snd (LibeventSocket_ctor this mem fd fl th w)) = fds (SetTCPNoDelay fd (SetNonBlocking fd w))"
  by (simp add: LibeventSocket_ctor_def Init_fds)

lemma Reset_log:
  "error_log (snd (Reset this fl th c w)) = error_log (SetNonBlocking (sock_fd c) w)"
  by (simp add: Reset_def Let_def Init_log)

lemma ctor_log:
  "error_log (snd (LibeventSocket_ctor this mem fd fl th w)) = error_log (SetNonBlocking fd w)"
  by (simp add: LibeventSocket_ctor_def Init_log)

lemma Resets_events:
  "events (snd (Resets this args c w)) = events w @ map (registration this (sock_fd c)) args
   \<and> sock_fd (fst (Resets this args c w)) = sock_fd c
   \<and> (args \<noteq> [] \<longrightarrow> event (fst (Resets this args c w)) = length (events w) + length args - 1)"
proof (induction args arbitrary: c w)
  case Nil
  show ?case by simp
next
  case (Cons a args)
  obtain fl th where a: "a = (fl, th)" by (cases a)
  obtain c' w' where r: "Reset this fl th c w = (c', w')" by (cases "Reset this fl th c w")
  have c': "c' = fst (Reset this fl th c w)" and w': "w' = snd (Reset this fl th c w)"
    using r by simp_all
  have fd: "sock_fd c' = sock_fd c" by (simp add: c' Reset_conn)
  have ev: "events w' = events w @ [registration this (sock_fd c) a]"
    by (simp add: w' Reset_events registration_def a)
  have h: "event c' = length (events w)" by (simp add: c' Reset_conn)
  show ?case
    using Cons.IH [of c' w'] by (cases args) (simp_all add: a r fd ev h)
qed

subsection \<open>The buffer\<close>

text \<open>
  C4. Whatever state a Buffer is in, \<^verbatim>\<open>Buffer::Reset()\<close> sets the cursor \<open>buf_ptr\<close>
  and the filled length \<open>buf_size\<close> to zero and leaves every byte of the underlying
  array as it was: nothing is zeroed.
\<close>

theorem Buffer_Reset_clears_cursors_keeps_bytes:
  "buf_ptr (Buffer_Reset b) = 0 \<and> buf_size (Buffer_Reset b) = 0 \<and> buf (Buffer_Reset b) = buf b"
  by (simp add: Buffer_Reset_def)

text \<open>The invariant of a buffer is kept by the constructor and by every operation.\<close>

lemmas buffer_defs = Buffer_ctor_def Buffer_Reset_def Buffer_consume_def Buffer_append_def
  Buffer_remaining_def GetMaxSize_def SOCKET_BUFFER_SIZE_def

lemma buffer_invariant_ctor: "buffer_invariant (Buffer_ctor g)"
  by (simp add: buffer_invariant_def Buffer_ctor_def)

lemma buffer_invariant_Reset: "buffer_invariant (Buffer_Reset b)"
  by (simp add: buffer_invariant_def Buffer_Reset_def)

lemma buffer_invariant_apply:
  "buffer_invariant b \<Longrightarrow> buffer_requires op b \<Longrightarrow> buffer_invariant (buffer_apply op b)"
  by (cases op)
    (auto simp: buffer_invariant_def Buffer_Reset_def Buffer_consume_def Buffer_append_def
      Buffer_remaining_def GetMaxSize_def)

lemma buffer_invariant_run:
  "buffer_invariant b \<Longrightarrow> buffer_run ops b = Some b' \<Longrightarrow> buffer_invariant b'"
proof (induction ops arbitrary: b)
  case Nil
  then show ?case by simp
next
  case (Cons op ops)
  from Cons.prems(2) have req: "buffer_requires op b"
    and run: "buffer_run ops (buffer_apply op b) = Some b'"
    by (simp_all split: if_splits)
  from Cons.prems(1) req have "buffer_invariant (buffer_apply op b)"
    by (rule buffer_invariant_apply)
  then show ?case using run by (rule Cons.IH)
qed

text \<open>
  C1. For every Buffer, after its construction and after every operation on it
  (\<^emph>\<open>Reset\<close>, \<^emph>\<open>consume\<close>, \<^emph>\<open>append\<close>, each applied when what it requires holds),
  \<open>0 \<le> buf_ptr \<le> buf_size \<le> SOCKET_BUFFER_SIZE\<close>: the cursor is at most the filled
  length, and the filled length at most the capacity. The same holds of \<open>rbuf\<close> and
  \<open>wbuf\<close> of every connection after its construction and after \<^verbatim>\<open>Reset\<close>.
\<close>

theorem buffer_invariant_always:
  assumes "buffer_run ops (Buffer_ctor g) = Some b"
  shows "0 \<le> buf_ptr b \<and> buf_ptr b \<le> buf_size b \<and> buf_size b \<le> SOCKET_BUFFER_SIZE
     \<and> buffer_invariant (rbuf (fst (LibeventSocket_ctor this mem fd fl th w)))
     \<and> buffer_invariant (wbuf (fst (LibeventSocket_ctor this mem fd fl th w)))
     \<and> buffer_invariant (rbuf (fst (Reset this fl th c w)))
     \<and> buffer_invariant (wbuf (fst (Reset this fl th c w)))"
proof -
  have "buffer_invariant (Buffer_ctor g)"
    by (rule buffer_invariant_ctor)
  then have "buffer_invariant b"
    using assms by (rule buffer_invariant_run)
  then show ?thesis
    by (simp add: buffer_invariant_def [of b] ctor_conn Reset_conn buffer_invariant_ctor
        buffer_invariant_Reset)
qed

theorem buffer_invariant_always_witness:
  "map_option (\<lambda>b. (buf_ptr b, buf_size b))
        (buffer_run some_buffer_ops (Buffer_ctor (\<lambda>i. 0))) = Some (0, 1)
   \<and> map_option (\<lambda>b. (buf_ptr b, buf_size b))
        (buffer_run (take 4 some_buffer_ops) (Buffer_ctor (\<lambda>i. 0))) = Some (5, 5)
   \<and> buffer_run [OpConsume 1] (Buffer_ctor (\<lambda>i. 0)) = None
   \<and> (5::nat) \<le> 5 \<and> 5 \<le> SOCKET_BUFFER_SIZE"
proof -
  have run: "buffer_run (take 4 some_buffer_ops) (Buffer_ctor (\<lambda>i. 0))
      = Some (the (buffer_run (take 4 some_buffer_ops) (Buffer_ctor (\<lambda>i. 0))))"
    by (simp add: some_buffer_ops_def buffer_defs)
  have v1: "map_option (\<lambda>b. (buf_ptr b, buf_size b))
        (buffer_run some_buffer_ops (Buffer_ctor (\<lambda>i. 0))) = Some (0, 1)"
    by (simp add: some_buffer_ops_def buffer_defs)
  have v2: "map_option (\<lambda>b. (buf_ptr b, buf_size b))
        (buffer_run (take 4 some_buffer_ops) (Buffer_ctor (\<lambda>i. 0))) = Some (5, 5)"
    by (simp add: some_buffer_ops_def buffer_defs)
  have v3: "buffer_run [OpConsume 1] (Buffer_ctor (\<lambda>i. 0)) = None"
    by (simp add: buffer_defs)
  from buffer_invariant_always [OF run] v1 v2 v3
  show ?thesis by (simp add: SOCKET_BUFFER_SIZE_def)
qed

subsection \<open>\<^verbatim>\<open>LibeventSocket::Reset\<close>\<close>

text \<open>
  C2. For every connection object and every pair of flags and thread,
  \<^verbatim>\<open>Reset(flags, thread)\<close> leaves both \<open>rbuf\<close> and \<open>wbuf\<close> empty (cursor and filled
  length 0), leaves no protocol handler in \<open>pkt_manager\<close>, leaves \<open>is_disconnected\<close>
  false, and registers an event with libevent: a new event, for the connection's
  \<open>sock_fd\<close>, on the event base of the given thread, under the given flags, with
  \<^verbatim>\<open>EventHandler\<close> as its callback, and pending.
\<close>

theorem Reset_reinitialises:
  assumes "Reset this fl th c w = (c', w')"
  shows "buf_ptr (rbuf c') = 0 \<and> buf_size (rbuf c') = 0
       \<and> buf_ptr (wbuf c') = 0 \<and> buf_size (wbuf c') = 0
       \<and> pkt_manager c' = None
       \<and> \<not> is_disconnected c'
       \<and> event c' = length (events w) \<and> event c' < length (events w')
       \<and> events w' ! event c' =
           \<lparr>ev_base = GetEventBase th, ev_fd = sock_fd c', ev_events = fl,
            ev_callback = EventHandler, ev_arg = this, ev_pending = True\<rparr>"
proof -
  have c': "c' = fst (Reset this fl th c w)" and w': "w' = snd (Reset this fl th c w)"
    using assms by simp_all
  show ?thesis
    unfolding c' w' by (simp add: Reset_conn Reset_events Buffer_Reset_def)
qed

theorem Reset_reinitialises_witness:
  "is_disconnected used_conn \<and> pkt_manager used_conn = Some 42
   \<and> buf_size (rbuf used_conn) = 10
   \<and> buf_size (rbuf (fst (Reset 100 4 worker1 used_conn one_socket))) = 0
   \<and> buf_size (wbuf (fst (Reset 100 4 worker1 used_conn one_socket))) = 0
   \<and> pkt_manager (fst (Reset 100 4 worker1 used_conn one_socket)) = None
   \<and> \<not> is_disconnected (fst (Reset 100 4 worker1 used_conn one_socket))
   \<and> events (snd (Reset 100 4 worker1 used_conn one_socket)) ! 0 =
        \<lparr>ev_base = Some 2, ev_fd = 5, ev_events = 4, ev_callback = EventHandler,
         ev_arg = 100, ev_pending = True\<rparr>"
  using Reset_reinitialises [of 100 4 worker1 used_conn one_socket
      "fst (Reset 100 4 worker1 used_conn one_socket)"
      "snd (Reset 100 4 worker1 used_conn one_socket)"]
  by (simp add: run_defs worker0_def worker1_def one_socket_def used_conn_def)

text \<open>
  C5. \<^verbatim>\<open>Reset(flags, thread)\<close> leaves the field \<open>sock_fd\<close> as it was, and the event it
  installs is one for that same descriptor: \<^verbatim>\<open>Reset\<close> never binds the connection
  object to another descriptor.
\<close>

theorem Reset_keeps_sock_fd:
  "sock_fd (fst (Reset this fl th c w)) = sock_fd c
   \<and> ev_fd (events (snd (Reset this fl th c w)) ! event (fst (Reset this fl th c w))) = sock_fd c"
  by (simp add: Reset_conn Reset_events)

theorem Reset_keeps_sock_fd_witness:
  "sock_fd (fst (Reset 100 4 worker1 used_conn one_socket)) = 5
   \<and> ev_fd (events (snd (Reset 100 4 worker1 used_conn one_socket))
        ! event (fst (Reset 100 4 worker1 used_conn one_socket))) = 5"
  using Reset_keeps_sock_fd [of 100 4 worker1 used_conn one_socket]
  by (simp add: run_defs worker0_def worker1_def one_socket_def used_conn_def)

text \<open>
  C10. Every call of \<^verbatim>\<open>Init\<close>, from the constructor or from \<^verbatim>\<open>Reset\<close>, creates one
  more event with \<^verbatim>\<open>event_new\<close> and stores its handle in \<open>event\<close>, and removes
  nothing: after the constructor and \<open>n\<close> calls of \<^verbatim>\<open>Reset\<close>, libevent holds the
  events it held before and, after them, \<open>n + 1\<close> events for the connection's
  descriptor, one for each call in order, all of them still pending; \<open>event\<close> is the
  handle of the last one.
\<close>

theorem Init_never_removes_events:
  assumes "LibeventSocket_ctor this mem fd fl th w = (c0 :: 'pm LibeventSocket, w0)"
    and "Resets this args c0 w0 = (c, w')"
  shows "events w' = events w @ map (registration this fd) ((fl, th) # args)
       \<and> length (events w') = length (events w) + (length args + 1)
       \<and> (\<forall>e \<in> set (drop (length (events w)) (events w')). ev_fd e = fd \<and> ev_pending e)
       \<and> event c = length (events w) + length args
       \<and> events (snd (Init this fl th c w')) = events w' @ [registration this fd (fl, th)]
       \<and> event (fst (Init this fl th c w')) = length (events w')"
proof -
  have c0: "c0 = fst (LibeventSocket_ctor this mem fd fl th w)"
    and w0: "w0 = snd (LibeventSocket_ctor this mem fd fl th w :: 'pm LibeventSocket \<times> world)"
    using assms(1) by simp_all
  have fd0: "sock_fd c0 = fd" by (simp add: c0 ctor_conn)
  have ev0: "events w0 = events w @ [registration this fd (fl, th)]"
    by (simp add: w0 ctor_events registration_def)
  have h0: "event c0 = length (events w)" by (simp add: c0 ctor_conn)
  have c: "c = fst (Resets this args c0 w0)" and w': "w' = snd (Resets this args c0 w0)"
    using assms(2) by simp_all
  have ev: "events w' = events w @ map (registration this fd) ((fl, th) # args)"
    using Resets_events [of this args c0 w0] by (simp add: w' ev0 fd0)
  have fd: "sock_fd c = fd"
    using Resets_events [of this args c0 w0] by (simp add: c fd0)
  have h: "event c = length (events w) + length args"
    using Resets_events [of this args c0 w0] by (cases args) (simp_all add: c h0 ev0)
  have new: "\<forall>e \<in> set (drop (length (events w)) (events w')). ev_fd e = fd \<and> ev_pending e"
    by (auto simp: ev registration_def)
  show ?thesis
    using ev h new by (simp add: Init_events Init_conn fd registration_def)
qed

theorem Init_never_removes_events_witness:
  "events one_socket = []
   \<and> length (events (snd twice_reset)) = 3
   \<and> map ev_fd (events (snd twice_reset)) = [5, 5, 5]
   \<and> map ev_events (events (snd twice_reset)) = [2, 4, 2]
   \<and> map ev_pending (events (snd twice_reset)) = [True, True, True]
   \<and> event (fst twice_reset) = 2"
proof -
  have ctor: "LibeventSocket_ctor 100 blank 5 2 worker0 one_socket = (fst constructed, snd constructed)"
    by (simp add: constructed_def)
  have resets: "Resets 100 [(4, worker1), (2, worker0)] (fst constructed) (snd constructed)
      = (fst twice_reset, snd twice_reset)"
    by (simp add: twice_reset_def)
  from Init_never_removes_events [OF ctor resets]
  show ?thesis
    by (simp add: registration_def GetEventBase_def worker0_def worker1_def one_socket_def)
qed

subsection \<open>Socket options\<close>

text \<open>
  Where \<^verbatim>\<open>fcntl(F_SETFL)\<close> fails, on a descriptor that is not open or was opened with
  \<^verbatim>\<open>O_PATH\<close>, \<^verbatim>\<open>SetNonBlocking\<close> does nothing but write its error to the log.
\<close>

lemma SetNonBlocking_failure_logged:
  assumes "fds w fd = None \<or> (\<exists>d. fds w fd = Some d \<and> kind d = PathOnly)"
  shows "SetNonBlocking fd w = LOG_ERROR ''Failed to set non-blocking socket'' w"
  using assms
  by (auto simp: SetNonBlocking_def fcntl_F_GETFL_def fcntl_F_SETFL_def Let_def)

text \<open>
  C6. For every connection, after construction and after every \<^verbatim>\<open>Reset\<close>, the socket
  descriptor \<open>sock_fd\<close> has \<^verbatim>\<open>O_NONBLOCK\<close> set in its file status flags and
  \<^verbatim>\<open>TCP_NODELAY\<close> enabled. The socket descriptor of a connection is an open TCP
  socket: on it both system calls succeed, and nothing is written to the log.
\<close>

theorem socket_options_on_tcp_socket:
  fixes c :: "'pm LibeventSocket"
  assumes "fds w fd = Some d" and "kind d = TcpSocket" and "sock_fd c = fd"
  shows "has_O_NONBLOCK
           (snd (LibeventSocket_ctor this mem fd fl th w :: 'pm LibeventSocket \<times> world)) fd
       \<and> has_TCP_NODELAY
           (snd (LibeventSocket_ctor this mem fd fl th w :: 'pm LibeventSocket \<times> world)) fd
       \<and> error_log
           (snd (LibeventSocket_ctor this mem fd fl th w :: 'pm LibeventSocket \<times> world))
           = error_log w
       \<and> has_O_NONBLOCK (snd (Reset this fl th c w)) fd
       \<and> has_TCP_NODELAY (snd (Reset this fl th c w)) fd
       \<and> error_log (snd (Reset this fl th c w)) = error_log w"
proof -
  have nb: "(status_flags d OR O_NONBLOCK) AND O_NONBLOCK \<noteq> 0"
    by (simp add: or_and_self) (simp add: O_NONBLOCK_def)
  show ?thesis
    using assms nb
    by (simp add: has_O_NONBLOCK_def has_TCP_NODELAY_def ctor_fds Reset_fds ctor_log Reset_log
        SetTCPNoDelay_fds SetNonBlocking_fds SetNonBlocking_log)
qed

theorem socket_options_on_tcp_socket_witness:
  "fds one_socket 5 = Some \<lparr>kind = TcpSocket, status_flags = 2, tcp_nodelay = False\<rparr>
   \<and> sock_fd used_conn = 5
   \<and> \<not> has_O_NONBLOCK one_socket 5 \<and> \<not> has_TCP_NODELAY one_socket 5
   \<and> has_O_NONBLOCK (snd (LibeventSocket_ctor 100 blank 5 2 worker0 one_socket
         :: nat LibeventSocket \<times> world)) 5
   \<and> has_TCP_NODELAY (snd (LibeventSocket_ctor 100 blank 5 2 worker0 one_socket
         :: nat LibeventSocket \<times> world)) 5
   \<and> has_O_NONBLOCK (snd (Reset 100 2 worker0 used_conn one_socket)) 5
   \<and> has_TCP_NODELAY (snd (Reset 100 2 worker0 used_conn one_socket)) 5
   \<and> error_log (snd (Reset 100 2 worker0 used_conn one_socket)) = []"
proof -
  have opened: "fds one_socket 5 = Some \<lparr>kind = TcpSocket, status_flags = 2, tcp_nodelay = False\<rparr>"
    by (simp add: one_socket_def)
  have tcp: "kind \<lparr>kind = TcpSocket, status_flags = 2, tcp_nodelay = False\<rparr> = TcpSocket"
    by simp
  have fd: "sock_fd used_conn = 5"
    by (simp add: used_conn_def)
  have before: "\<not> has_O_NONBLOCK one_socket 5 \<and> \<not> has_TCP_NODELAY one_socket 5"
    by (simp add: has_O_NONBLOCK_def has_TCP_NODELAY_def one_socket_def O_NONBLOCK_def)
  have log: "error_log one_socket = []"
    by (simp add: one_socket_def)
  from socket_options_on_tcp_socket [OF opened tcp fd, of 100 blank 2 worker0]
    opened fd before log
  show ?thesis by simp
qed

subsection \<open>\<^verbatim>\<open>LibeventThread\<close>\<close>

text \<open>
  C9. For every thread id, constructing a \<^verbatim>\<open>LibeventThread\<close> with a null event base
  ends the process with \<^verbatim>\<open>exit(1)\<close>, a non-zero code, and no object is returned; with a
  base that is not null the constructor returns the object, which stores the id and
  the base, and changes nothing else.
\<close>

theorem LibeventThread_ctor_null_base:
  "fst (LibeventThread_ctor tid None w) = Inl (Exit 1)
   \<and> LibeventThread_ctor tid (Some b) w = (Inr \<lparr>thread_id = tid, libevent_base = Some b\<rparr>, w)
   \<and> GetEventBase \<lparr>thread_id = tid, libevent_base = Some b\<rparr> = Some b"
  by (simp add: LibeventThread_ctor_def GetEventBase_def)

theorem LibeventThread_ctor_null_base_witness:
  "fst (LibeventThread_ctor 3 None no_descriptors) = Inl (Exit 1)
   \<and> fst (LibeventThread_ctor 3 (Some 8) no_descriptors) = Inr \<lparr>thread_id = 3, libevent_base = Some 8\<rparr>"
  using LibeventThread_ctor_null_base [of 3 no_descriptors 8]
  by simp

subsection \<open>Writing a packet\<close>























subsection \<open>The disconnect flag\<close>

text \<open>No method but \<^verbatim>\<open>Reset\<close> clears the flag once it is set.\<close>

lemma Refill_latch: "is_disconnected c \<Longrightarrow> is_disconnected (snd (RefillReadBuffer r c))"
  by (cases r) (simp_all add: RefillReadBuffer_def Let_def)

lemma ReadBytes_latch:
  "is_disconnected c \<Longrightarrow> is_disconnected (snd (snd (ReadBytes rs n c)))"
proof (induction rs n c rule: ReadBytes.induct)
  case (1 rs n c)
  note unfold = ReadBytes.simps [of rs n c]
  show ?case
  proof (cases "n \<le> Buffer_remaining (rbuf c)")
    case True
    with "1.prems" show ?thesis unfolding unfold by simp
  next
    case False
    show ?thesis
    proof (cases rs)
      case Nil
      from False "1.prems" Refill_latch [of c RdAgain] show ?thesis
        unfolding Nil by (simp add: ReadBytes.simps [of "[]" n c])
    next
      case (Cons r rs0)
      obtain ok c' where rf: "RefillReadBuffer r c = (ok, c')"
        by (cases "RefillReadBuffer r c")
      have c': "is_disconnected c'"
        using Refill_latch [OF "1.prems", of r] rf by simp
      show ?thesis
      proof (cases ok)
        case True
        from False rf c' True "1.IH" [OF False Cons _ _ c'] show ?thesis
          unfolding Cons by (simp add: ReadBytes.simps [of "r # rs0" n c])
      next
        case no: False
        from False rf c' no show ?thesis
          unfolding Cons by (simp add: ReadBytes.simps [of "r # rs0" n c])
      qed
    qed
  qed
qed

lemma Flush_latch:
  "is_disconnected c \<Longrightarrow> FlushWriteBuffer rs c wire = (st, rs', c', wire') \<Longrightarrow> is_disconnected c'"
proof (induction rs c wire rule: FlushWriteBuffer.induct)
  case (1 rs c wire)
  note run = "1.prems"(2) [unfolded FlushWriteBuffer.simps [of rs c wire]]
  show ?case
  proof (cases "Buffer_remaining (wbuf c) = 0")
    case True
    with run "1.prems"(1) show ?thesis by auto
  next
    case False
    show ?thesis
    proof (cases rs)
      case Nil
      with False run "1.prems"(1) show ?thesis by auto
    next
      case (Cons r rs0)
      show ?thesis
      proof (cases r)
        case (Written k)
        let ?n = "min k (Buffer_remaining (wbuf c))"
        from False Cons Written run
        have "FlushWriteBuffer rs0 (c\<lparr>wbuf := Buffer_consume ?n (wbuf c)\<rparr>)
            (wire @ take ?n (readable (wbuf c))) = (st, rs', c', wire')"
          by (simp add: Let_def)
        with "1.IH" [OF False Cons Written refl] "1.prems"(1)
        show ?thesis by simp
      next
        case WrAgain
        with False Cons run "1.prems"(1) show ?thesis by auto
      next
        case WrError
        with False Cons run "1.prems"(1) show ?thesis by auto
      qed
    qed
  qed
qed

lemma write_chunks_latch:
  "is_disconnected c \<Longrightarrow> write_chunks rs bytes c wire = (ok, rs', c', wire') \<Longrightarrow>
     is_disconnected c'"
proof (induction rs bytes c wire rule: write_chunks.induct)
  case (1 rs bytes c wire)
  let ?window = "GetMaxSize (wbuf c) - buf_size (wbuf c)"
  note run = "1.prems"(2) [unfolded write_chunks.simps [of rs bytes c wire]]
  show ?case
  proof (cases "length bytes \<le> ?window")
    case True
    with run "1.prems"(1) show ?thesis by (auto simp: Let_def)
  next
    case False
    let ?c1 = "c\<lparr>wbuf := Buffer_append bytes ?window (wbuf c)\<rparr>"
    obtain st rs1 c2 wire2 where fl: "FlushWriteBuffer rs ?c1 wire = (st, rs1, c2, wire2)"
      by (cases "FlushWriteBuffer rs ?c1 wire") auto
    have c2: "is_disconnected c2"
      using "1.prems"(1) fl by (intro Flush_latch [of ?c1 rs wire st rs1 c2 wire2]) simp_all
    show ?thesis
    proof (cases st)
      case FlushDone
      with False run fl
      have "write_chunks rs1 (drop ?window bytes) c2 wire2 = (ok, rs', c', wire')"
        by (simp add: Let_def)
      with "1.IH" [OF refl False fl [unfolded FlushDone, symmetric] refl refl refl c2]
      show ?thesis by simp
    next
      case FlushBlocked
      with False run fl c2 show ?thesis by (auto simp: Let_def)
    next
      case FlushFailed
      with False run fl c2 show ?thesis by (auto simp: Let_def)
    qed
  qed
qed

lemma BufferWriteBytes_latch:
  assumes "is_disconnected c" and "BufferWriteBytes rs p len ty c wire = (ok, rs', c', wire')"
  shows "is_disconnected c'"
proof (cases "length (packet_bytes p len ty) \<le> GetMaxSize (wbuf c) - buf_size (wbuf c)")
  case True
  with assms show ?thesis by (auto simp: BufferWriteBytes_def Let_def)
next
  case False
  obtain st rs0 c0 wire0 where fl: "FlushWriteBuffer rs c wire = (st, rs0, c0, wire0)"
    by (cases "FlushWriteBuffer rs c wire") auto
  have c0: "is_disconnected c0"
    using assms(1) fl by (rule Flush_latch)
  show ?thesis
  proof (cases st)
    case FlushDone
    with False assms(2) fl
    have "write_chunks rs0 (packet_bytes p len ty) c0 wire0 = (ok, rs', c', wire')"
      by (simp add: BufferWriteBytes_def Let_def)
    with c0 show ?thesis by (rule write_chunks_latch)
  next
    case FlushBlocked
    with False assms(2) fl c0 show ?thesis by (auto simp: BufferWriteBytes_def Let_def)
  next
    case FlushFailed
    with False assms(2) fl c0 show ?thesis by (auto simp: BufferWriteBytes_def Let_def)
  qed
qed

lemma CloseSocket_latch: "is_disconnected (fst (CloseSocket c w))"
  by (simp add: CloseSocket_def Let_def)

lemma conn_step_latch:
  assumes "is_disconnected (conn s)" and "\<not> is_Reset op"
  shows "is_disconnected (conn (conn_step op s))"
proof (cases op)
  case (DoRefill r)
  with assms(1) show ?thesis by (simp add: Refill_latch)
next
  case (DoReadBytes rs n)
  with assms(1) show ?thesis by (simp add: ReadBytes_latch)
next
  case (DoBufferWriteBytes rs p len ty)
  obtain ok rs' c' wire' where r: "BufferWriteBytes rs p len ty (conn s) (sent s) = (ok, rs', c', wire')"
    by (cases "BufferWriteBytes rs p len ty (conn s) (sent s)") auto
  from assms(1) r have "is_disconnected c'" by (rule BufferWriteBytes_latch)
  with DoBufferWriteBytes r show ?thesis by simp
next
  case (DoFlush rs)
  obtain st rs' c' wire' where r: "FlushWriteBuffer rs (conn s) (sent s) = (st, rs', c', wire')"
    by (cases "FlushWriteBuffer rs (conn s) (sent s)") auto
  from assms(1) r have "is_disconnected c'" by (rule Flush_latch)
  with DoFlush r show ?thesis by simp
next
  case DoClose
  then show ?thesis
    using CloseSocket_latch [of "conn s" "env s"]
    by (cases "CloseSocket (conn s) (env s)") simp
next
  case (DoReset this fl th)
  with assms(2) show ?thesis by simp
qed

lemma conn_trace_unfold: "conn_trace ops s = s # tl (conn_trace ops s)"
  by (cases ops) simp_all

lemma trace_latched:
  "is_disconnected (conn s) \<Longrightarrow> \<forall>op \<in> set ops. \<not> is_Reset op \<Longrightarrow>
     \<forall>t \<in> set (conn_trace ops s). is_disconnected (conn t)"
proof (induction ops arbitrary: s)
  case Nil
  then show ?case by simp
next
  case (Cons op ops)
  from Cons.prems have "is_disconnected (conn (conn_step op s))"
    by (intro conn_step_latch) simp_all
  with Cons.IH [of "conn_step op s"] Cons.prems show ?case by simp
qed

lemma rises_True_Cons: "rises (True # xs) = rises xs"
  by (cases xs) simp_all

lemma rises_all_True: "\<forall>x \<in> set xs. x \<Longrightarrow> rises xs = 0"
  by (induction xs) (auto simp: rises_True_Cons)

lemma rises_Cons_le: "rises (x # xs) \<le> (if x then rises xs else Suc (rises xs))"
  by (induction "x # xs" arbitrary: x xs rule: rises.induct) auto

lemma trace_rises:
  "\<forall>op \<in> set ops. \<not> is_Reset op \<Longrightarrow>
     rises (map (\<lambda>t. is_disconnected (conn t)) (conn_trace ops s)) \<le> 1"
proof (induction ops arbitrary: s)
  case Nil
  show ?case by simp
next
  case (Cons op ops)
  let ?s' = "conn_step op s"
  let ?rest = "map (\<lambda>t. is_disconnected (conn t)) (conn_trace ops ?s')"
  have rest: "?rest = is_disconnected (conn ?s') # tl ?rest"
    by (subst conn_trace_unfold) (simp add: map_tl)
  have no_reset: "\<forall>op \<in> set ops. \<not> is_Reset op" using Cons.prems by simp
  show ?case
  proof (cases "is_disconnected (conn ?s')")
    case True
    then have "\<forall>t \<in> set (conn_trace ops ?s'). is_disconnected (conn t)"
      using no_reset by (rule trace_latched)
    then have "rises ?rest = 0" by (intro rises_all_True) simp
    moreover have "rises (is_disconnected (conn s) # ?rest)
        \<le> (if is_disconnected (conn s) then rises ?rest else Suc (rises ?rest))"
      by (rule rises_Cons_le)
    ultimately show ?thesis by (simp split: if_splits)
  next
    case False
    have "\<not> is_disconnected (conn s)"
      using False Cons.prems conn_step_latch [of s op] by auto
    then have "rises (is_disconnected (conn s) # ?rest) = rises ?rest"
      using False by (subst rest, subst (2) rest) simp
    with Cons.IH [OF no_reset, of ?s'] show ?thesis by simp
  qed
qed

text \<open>
  C3. The flag \<open>is_disconnected\<close> of a connection is a latch. Over any sequence of
  operations without \<^verbatim>\<open>Reset\<close> it goes from false to true at most once, and once true
  it is true in every later state; an operation that finds it true and leaves it false
  is a \<^verbatim>\<open>Reset\<close>; after \<^verbatim>\<open>Reset\<close> and after the constructor it is false.
\<close>

theorem is_disconnected_latch:
  assumes "\<forall>op \<in> set ops. \<not> is_Reset op"
  shows "rises (map (\<lambda>t. is_disconnected (conn t)) (conn_trace ops s)) \<le> 1
     \<and> (is_disconnected (conn s) \<longrightarrow> (\<forall>t \<in> set (conn_trace ops s). is_disconnected (conn t)))
     \<and> (is_disconnected (conn s) \<and> \<not> is_disconnected (conn (conn_step op s)) \<longrightarrow> is_Reset op)
     \<and> \<not> is_disconnected (conn (conn_step (DoReset this fl th) s))
     \<and> \<not> is_disconnected (fst (LibeventSocket_ctor this mem fd fl th w))"
proof -
  have "is_disconnected (conn s) \<longrightarrow> (\<forall>t \<in> set (conn_trace ops s). is_disconnected (conn t))"
    using assms trace_latched [of s ops] by blast
  moreover have "is_disconnected (conn s) \<and> \<not> is_disconnected (conn (conn_step op s)) \<longrightarrow> is_Reset op"
    using conn_step_latch [of s op] by blast
  moreover have "\<not> is_disconnected (conn (conn_step (DoReset this fl th) s))"
    using Reset_conn [of this fl th "conn s" "env s"]
    by (cases "Reset this fl th (conn s) (env s)") simp
  moreover have "\<not> is_disconnected (fst (LibeventSocket_ctor this mem fd fl th w))"
    by (simp add: ctor_conn)
  ultimately show ?thesis
    using trace_rises [OF assms, of s] by simp
qed

theorem is_disconnected_latch_witness:
  "list_all (\<lambda>op. \<not> is_Reset op) failing_ops
   \<and> map (\<lambda>t. is_disconnected (conn t)) (conn_trace failing_ops fresh_session)
       = [False, False, True, True, True, True]
   \<and> rises (map (\<lambda>t. is_disconnected (conn t)) (conn_trace failing_ops fresh_session)) = 1
   \<and> is_disconnected (conn (conn_step DoClose fresh_session))
   \<and> \<not> is_disconnected (conn (conn_step (DoReset 100 2 worker1) (conn_step DoClose fresh_session)))"
proof -
  have ops: "\<forall>op \<in> set failing_ops. \<not> is_Reset op"
    by (simp add: failing_ops_def)
  have tr: "map (\<lambda>t. is_disconnected (conn t)) (conn_trace failing_ops fresh_session)
       = [False, False, True, True, True, True]"
    by code_simp
  have cl: "is_disconnected (conn (conn_step DoClose fresh_session))"
    by code_simp
  have rs: "\<not> is_disconnected (conn (conn_step (DoReset 100 2 worker1) (conn_step DoClose fresh_session)))"
    by code_simp
  from is_disconnected_latch [OF ops, of fresh_session DoClose 100 2 worker1 blank 5 one_socket]
  show ?thesis using ops tr cl rs by (simp add: list_all_iff)
qed

subsection \<open>Dispatch\<close>

lemma share_of_Nil: "share_of n w k0 [] = []"
  by (simp add: share_of_def)

lemma share_of_Cons:
  "share_of n w k0 (x # xs) = (if k0 mod n = w then [x] else []) @ share_of n w (Suc k0) xs"
  by (simp add: share_of_def)

lemma share_of_member:
  "k < length xs \<Longrightarrow> xs ! k \<in> set (share_of n (k mod n) 0 xs)"
proof -
  assume k: "k < length xs"
  then have "(k, xs ! k) \<in> set (enumerate 0 xs)"
    by (simp add: in_set_enumerate_eq)
  then have "(k, xs ! k) \<in> set (filter (\<lambda>(j, x). j mod n = k mod n) (enumerate 0 xs))"
    by simp
  then have "snd (k, xs ! k) \<in> snd ` set (filter (\<lambda>(j, x). j mod n = k mod n) (enumerate 0 xs))"
    by (rule imageI)
  then show ?thesis by (simp add: share_of_def)
qed

lemma DispatchConnection_step:
  assumes "0 < num_threads (master a)" and "length (workers a) = num_threads (master a)"
  shows "DispatchConnection fd fl a =
     Some (a\<lparr>workers := (workers a)[counter a mod num_threads (master a) :=
                  (workers a ! (counter a mod num_threads (master a)))
                    \<lparr>new_conn_queue :=
                       new_conn_queue (workers a ! (counter a mod num_threads (master a)))
                         @ [queue_item (fd, fl)]\<rparr>],
             counter := Suc (counter a),
             pipe_writes := pipe_writes a @
               [new_conn_send_fd (workers a ! (counter a mod num_threads (master a)))]\<rparr>)"
  using assms by (simp add: DispatchConnection_def Let_def queue_item_def)

lemma dispatch_all_general:
  assumes "0 < n" and "num_threads (master a) = n" and "length (workers a) = n"
  shows "\<exists>a'. dispatch_all items a = Some a'
     \<and> master a' = master a \<and> length (workers a') = n
     \<and> counter a' = counter a + length items
     \<and> (\<forall>w<n. new_conn_queue (workers a' ! w)
            = new_conn_queue (workers a ! w) @ map queue_item (share_of n w (counter a) items)
          \<and> new_conn_send_fd (workers a' ! w) = new_conn_send_fd (workers a ! w))
     \<and> pipe_writes a' = pipe_writes a @
           map (\<lambda>k. new_conn_send_fd (workers a ! (k mod n))) [counter a..<counter a + length items]"
  using assms
proof (induction items arbitrary: a)
  case Nil
  then show ?case by (simp add: share_of_Nil)
next
  case (Cons x items)
  obtain fd fl where x: "x = (fd, fl)" by (cases x)
  let ?i = "counter a mod n"
  let ?wk = "(workers a ! ?i)\<lparr>new_conn_queue := new_conn_queue (workers a ! ?i) @ [queue_item (fd, fl)]\<rparr>"
  let ?a1 = "a\<lparr>workers := (workers a)[?i := ?wk], counter := Suc (counter a),
      pipe_writes := pipe_writes a @ [new_conn_send_fd (workers a ! ?i)]\<rparr>"
  have i: "?i < n" using Cons.prems(1) by simp
  have step: "DispatchConnection fd fl a = Some ?a1"
    using DispatchConnection_step [of a fd fl] Cons.prems by simp
  have wf1: "num_threads (master ?a1) = n" "length (workers ?a1) = n"
    using Cons.prems by simp_all
  from Cons.IH [OF Cons.prems(1) wf1]
  obtain a' where run: "dispatch_all items ?a1 = Some a'"
    and m: "master a' = master ?a1" and len: "length (workers a') = n"
    and cnt: "counter a' = counter ?a1 + length items"
    and q: "\<forall>w<n. new_conn_queue (workers a' ! w)
            = new_conn_queue (workers ?a1 ! w) @ map queue_item (share_of n w (counter ?a1) items)
          \<and> new_conn_send_fd (workers a' ! w) = new_conn_send_fd (workers ?a1 ! w)"
    and p: "pipe_writes a' = pipe_writes ?a1 @
           map (\<lambda>k. new_conn_send_fd (workers ?a1 ! (k mod n))) [counter ?a1..<counter ?a1 + length items]"
    by blast
  have fds: "new_conn_send_fd ((workers a)[?i := ?wk] ! w) = new_conn_send_fd (workers a ! w)"
    if "w < n" for w
    using that Cons.prems(3) by (cases "w = ?i") simp_all
  have queues: "new_conn_queue ((workers a)[?i := ?wk] ! w)
      = new_conn_queue (workers a ! w) @ (if ?i = w then [queue_item (fd, fl)] else [])"
    if "w < n" for w
    using that Cons.prems(3) by (cases "w = ?i") auto
  have all: "dispatch_all (x # items) a = Some a'"
    using step run by (simp add: x)
  have Q: "\<forall>w<n. new_conn_queue (workers a' ! w)
            = new_conn_queue (workers a ! w) @ map queue_item (share_of n w (counter a) (x # items))
          \<and> new_conn_send_fd (workers a' ! w) = new_conn_send_fd (workers a ! w)"
  proof (intro allI impI)
    fix w assume w: "w < n"
    from q w have "new_conn_queue (workers a' ! w)
        = new_conn_queue ((workers a)[?i := ?wk] ! w) @ map queue_item (share_of n w (Suc (counter a)) items)"
      and "new_conn_send_fd (workers a' ! w) = new_conn_send_fd ((workers a)[?i := ?wk] ! w)"
      by simp_all
    then show "new_conn_queue (workers a' ! w)
            = new_conn_queue (workers a ! w) @ map queue_item (share_of n w (counter a) (x # items))
          \<and> new_conn_send_fd (workers a' ! w) = new_conn_send_fd (workers a ! w)"
      by (simp add: queues [OF w] fds [OF w] share_of_Cons x)
  qed
  define L where "L = [Suc (counter a)..<Suc (counter a) + length items]"
  have p': "pipe_writes a' = pipe_writes a @ new_conn_send_fd (workers a ! ?i) #
      map (\<lambda>k. new_conn_send_fd ((workers a)[?i := ?wk] ! (k mod n))) L"
    using p unfolding L_def by (simp del: upt_Suc)
  have same: "map (\<lambda>k. new_conn_send_fd ((workers a)[?i := ?wk] ! (k mod n))) L
      = map (\<lambda>k. new_conn_send_fd (workers a ! (k mod n))) L"
    using Cons.prems(1) by (intro map_cong refl fds) simp
  have up: "[counter a..<counter a + length (x # items)] = counter a # L"
    unfolding L_def by (simp add: upt_conv_Cons del: upt_Suc)
  have P: "pipe_writes a' = pipe_writes a @
      map (\<lambda>k. new_conn_send_fd (workers a ! (k mod n))) [counter a..<counter a + length (x # items)]"
    unfolding up using p' same by simp
  show ?case
    using all m len cnt Q P by simp
qed

text \<open>
  C8. With at least one worker and the counter at 0, every sequence of accepted
  descriptors is dispatched, and the \<open>k\<close>-th of them, counted from 0, goes to the worker
  with index \<open>k mod num_threads\<close>: each worker's queue receives, behind what it held,
  the connections whose number leaves its index as remainder, in the order accepted,
  and one byte is written to its pipe for each. With two workers and four connections
  the descriptors go to the workers 0, 1, 0, 1.
\<close>

theorem DispatchConnection_round_robin:
  assumes "0 < num_threads (master a)"
    and "length (workers a) = num_threads (master a)"
    and "counter a = 0"
  shows "\<exists>a'. dispatch_all items a = Some a'
     \<and> (\<forall>w < num_threads (master a).
           new_conn_queue (workers a' ! w)
             = new_conn_queue (workers a ! w)
               @ map queue_item (share_of (num_threads (master a)) w 0 items))
     \<and> (\<forall>k < length items.
           queue_item (items ! k)
             \<in> set (new_conn_queue (workers a' ! (k mod num_threads (master a)))))
     \<and> pipe_writes a' = pipe_writes a @
           map (\<lambda>k. new_conn_send_fd (workers a ! (k mod num_threads (master a))))
             [0..<length items]"
proof -
  let ?n = "num_threads (master a)"
  from dispatch_all_general [OF assms(1) refl assms(2), of items]
  obtain a' where run: "dispatch_all items a = Some a'"
    and q: "\<forall>w<?n. new_conn_queue (workers a' ! w)
            = new_conn_queue (workers a ! w) @ map queue_item (share_of ?n w (counter a) items)
          \<and> new_conn_send_fd (workers a' ! w) = new_conn_send_fd (workers a ! w)"
    and p: "pipe_writes a' = pipe_writes a @
           map (\<lambda>k. new_conn_send_fd (workers a ! (k mod ?n))) [counter a..<counter a + length items]"
    by blast
  have member: "\<forall>k < length items. queue_item (items ! k) \<in> set (new_conn_queue (workers a' ! (k mod ?n)))"
  proof (intro allI impI)
    fix k assume k: "k < length items"
    have "k mod ?n < ?n" using assms(1) by simp
    with q have "new_conn_queue (workers a' ! (k mod ?n))
        = new_conn_queue (workers a ! (k mod ?n)) @ map queue_item (share_of ?n (k mod ?n) 0 items)"
      by (simp add: assms(3))
    moreover have "queue_item (items ! k) \<in> queue_item ` set (share_of ?n (k mod ?n) 0 items)"
      using share_of_member [OF k] by (rule imageI)
    ultimately show "queue_item (items ! k) \<in> set (new_conn_queue (workers a' ! (k mod ?n)))"
      by simp
  qed
  from run q p member show ?thesis
    by (intro exI [of _ a']) (simp add: assms(3))
qed

theorem DispatchConnection_round_robin_witness:
  "0 < num_threads (master two_workers)
   \<and> length (workers two_workers) = num_threads (master two_workers)
   \<and> counter two_workers = 0
   \<and> map_option (\<lambda>a. map (\<lambda>w. map new_conn_fd (new_conn_queue w)) (workers a))
         (dispatch_all four_clients two_workers) = Some [[10, 12], [11, 13]]
   \<and> map_option pipe_writes (dispatch_all four_clients two_workers) = Some [21, 23, 21, 23]
   \<and> map new_conn_fd (map queue_item (share_of 2 0 0 four_clients)) = [10, 12]
   \<and> map new_conn_fd (map queue_item (share_of 2 1 0 four_clients)) = [11, 13]"
proof -
  have a: "0 < num_threads (master two_workers)"
    and b: "length (workers two_workers) = num_threads (master two_workers)"
    and c: "counter two_workers = 0"
    by (simp_all add: two_workers_def)
  have run: "map_option (\<lambda>a. map (\<lambda>w. map new_conn_fd (new_conn_queue w)) (workers a))
         (dispatch_all four_clients two_workers) = Some [[10, 12], [11, 13]]"
    by code_simp
  have pw: "map_option pipe_writes (dispatch_all four_clients two_workers) = Some [21, 23, 21, 23]"
    by code_simp
  have s0: "map new_conn_fd (map queue_item (share_of 2 0 0 four_clients)) = [10, 12]"
    by code_simp
  have s1: "map new_conn_fd (map queue_item (share_of 2 1 0 four_clients)) = [11, 13]"
    by code_simp
  from DispatchConnection_round_robin [OF a b c, of four_clients] a b c run pw s0 s1
  show ?thesis by simp
qed

end
